theory Spec2Isabelle
  imports Complex_Main "HOL-Library.AList"
begin

section \<open>LF_UpdateSicCodes_MR.js: SIC codes from Companies House\<close>

text \<open>
  A shallow embedding of the Map/Reduce script \<^verbatim>\<open>LF_UpdateSicCodes_MR.js\<close>.
  The script's own functions are translated one by one and keep their names. What the
  script calls but does not define (the record store behind \<^verbatim>\<open>N/record\<close>, the
  searches of \<^verbatim>\<open>N/search\<close>, the transport of \<^verbatim>\<open>N/https\<close>, \<^verbatim>\<open>N/encode\<close>)
  is a parameter, collected in the record \<open>env\<close>. A JavaScript exception is a value
  of type \<open>error\<close>; a function that mutates the loaded record returns the record it
  leaves behind, together with the list of calls it made on the collaborators.
  \<^verbatim>\<open>log.debug\<close> only writes to the execution log and is left out.

  A \<open>char\<close> stands for the UTF-16 code unit of the same number, so a \<open>string\<close> is a
  JavaScript string whose code units are all below 256.
\<close>

subsection \<open>JavaScript values\<close>

datatype jsvalue =
    JSUndefined
  | JSNull
  | JSBoolean bool
  | JSNumber rat
  | JSNaN
  | JSString string

text \<open>\<^verbatim>\<open>v === 0\<close>: strict equality with the number zero (no coercion of strings,
  booleans, null or undefined; NaN is not equal to anything).\<close>

definition strict_eq_zero :: "jsvalue \<Rightarrow> bool" where
  "strict_eq_zero v = (v = JSNumber 0)"

text \<open>\<^verbatim>\<open>v += 1\<close> on a property: the addition of the language, which yields NaN on
  undefined and concatenates on a string.\<close>

fun js_plus_one :: "jsvalue \<Rightarrow> jsvalue" where
  "js_plus_one JSUndefined = JSNaN"
| "js_plus_one JSNull = JSNumber 1"
| "js_plus_one (JSBoolean b) = JSNumber (if b then 2 else 1)"
| "js_plus_one (JSNumber n) = JSNumber (n + 1)"
| "js_plus_one JSNaN = JSNaN"
| "js_plus_one (JSString s) = JSString (s @ ''1'')"

text \<open>\<^verbatim>\<open>xs.join(sep)\<close> on an array of strings.\<close>

fun join :: "string \<Rightarrow> string list \<Rightarrow> string" where
  "join sep [] = []"
| "join sep [x] = x"
| "join sep (x # y # ys) = x @ sep @ join sep (y # ys)"

datatype error =
    SyntaxError
  | TypeError
  | InvalidFieldValue
  | RecordNotFound
  | TransportError

subsection \<open>The collaborators\<close>

text \<open>
  The body of a response is a string that \<^verbatim>\<open>JSON.parse\<close> either refuses (\<open>Malformed\<close>:
  it throws SyntaxError) or reads as a company profile, taken at the shape the registry
  documents: an object whose \<^verbatim>\<open>sic_codes\<close>, when present, is an array of strings and
  whose \<^verbatim>\<open>company_status\<close>, when present, is a string. An error document of the
  registry is an object with neither property: \<open>Profile None None\<close>. Both readers
  parse the body first (lines 81 and 108) and look at the status code afterwards.
\<close>

datatype body_text =
    Malformed
  | Profile "string list option" "string option"

record response =
  code :: int
  body :: body_text

text \<open>A customer as the script sees it: the fields it reads or writes.\<close>

record customer =
  entityid :: string
  custentity_company_no :: string
  custentity_sic_codes :: "string list"
  custentity_sic_description :: string
  custentity_company_status :: string
  balance :: jsvalue
  overduebalance :: jsvalue
  unbilledorders :: jsvalue
  isinactive :: bool
  lastmodifieddate :: nat

text \<open>The \<^verbatim>\<open>text\<close> argument of \<^verbatim>\<open>record.setText\<close>: one string, or an array.\<close>

datatype text_arg =
    OneText string
  | TextArray "string list"

text \<open>The calls the script makes on its collaborators, in the order it makes them.\<close>

datatype call =
    LookupFields
  | HttpsGet string
  | RecordLoad nat
  | SetText string text_arg
  | SetValue string jsvalue
  | SearchRun string
  | RecordSave nat

text \<open>
  \<open>accepts env f t\<close>: the store takes the text \<open>t\<close> for the field \<open>f\<close>; where it does
  not, \<^verbatim>\<open>setText\<close> throws and leaves the field as it was. \<open>sic_search env k\<close> are the
  descriptions the keyword search over \<^verbatim>\<open>customrecord_sic_codes\<close> finds for \<open>k\<close>, in
  result order. \<open>https_get env url headers\<close> is what the transport answers.
\<close>

record env =
  apiKey :: string
  base64 :: "string \<Rightarrow> string"
  https_get :: "string \<Rightarrow> (string \<times> string) list \<Rightarrow> error + response"
  accepts :: "string \<Rightarrow> string \<Rightarrow> bool"
  sic_search :: "string \<Rightarrow> string list"

subsection \<open>getCompaniesHouseApiResponse\<close>

definition is_digit :: "char \<Rightarrow> bool" where
  "is_digit c = (c \<in> set ''0123456789'')"

text \<open>The class \<^verbatim>\<open>\s\<close> among the code units below 256: tab, line feed, vertical tab,
  form feed, carriage return, space and the no-break space.\<close>

definition is_space :: "char \<Rightarrow> bool" where
  "is_space c = ((of_char c :: nat) \<in> set [9, 10, 11, 12, 13, 32, 160])"

text \<open>\<^verbatim>\<open>/^[0-9]+$/\<close> and \<^verbatim>\<open>/^\s+$/\<close>: one character or more, all of the class.\<close>

definition matches_digits :: "string \<Rightarrow> bool" where
  "matches_digits s = (s \<noteq> [] \<and> list_all is_digit s)"

definition matches_spaces :: "string \<Rightarrow> bool" where
  "matches_spaces s = (s \<noteq> [] \<and> list_all is_space s)"

text \<open>Lines 48 to 61: the identifier the request is made for.\<close>

definition searchableCompanyId :: "string \<Rightarrow> string" where
  "searchableCompanyId companyId =
     (let s0 = companyId;
          s1 = (if matches_digits companyId \<and> length companyId = 7
                then ''0'' @ companyId else s0);
          s2 = (if matches_spaces companyId
                then filter (\<lambda>c. \<not> is_space c) companyId else s1)
      in s2)"

definition getCompaniesHouseApiResponse ::
  "env \<Rightarrow> string \<Rightarrow> (error + response) \<times> call list" where
  "getCompaniesHouseApiResponse env companyId =
     (let password = [];
          base64authString = base64 env (apiKey env @ '':'' @ password);
          requestHeaders = [(''Authorization'', ''Basic '' @ base64authString)];
          requestUrl = ''https://api.companieshouse.gov.uk/company/''
                         @ searchableCompanyId companyId
      in (https_get env requestUrl requestHeaders, [LookupFields, HttpsGet requestUrl]))"

subsection \<open>Reading the response\<close>

text \<open>Lines 85 to 91: \<^verbatim>\<open>code.slice(0, 1) === '0'\<close> and \<^verbatim>\<open>code.slice(1)\<close>.\<close>

definition usableCode :: "string \<Rightarrow> string" where
  "usableCode c = (if take 1 c = ''0'' then drop 1 c else c)"

definition getSicCodesFromCompaniesHouseResponse :: "response \<Rightarrow> error + string list" where
  "getSicCodesFromCompaniesHouseResponse r =
     (case body r of
        Malformed \<Rightarrow> Inl SyntaxError
      | Profile sic status \<Rightarrow>
          if code r = 200 then
            (case sic of
               Some codes \<Rightarrow> Inr (foldl (\<lambda>sicCodes c. sicCodes @ [usableCode c]) [] codes)
             | None \<Rightarrow> Inr [])
          else Inr [])"

definition getCompanyStatusFromCompaniesHouseResponse :: "response \<Rightarrow> error + string" where
  "getCompanyStatusFromCompaniesHouseResponse r =
     (case body r of
        Malformed \<Rightarrow> Inl SyntaxError
      | Profile sic status \<Rightarrow>
          if code r = 200 then
            (case status of
               Some s \<Rightarrow> if s \<noteq> [] then Inr s else Inr []
             | None \<Rightarrow> Inr [])
          else Inr [])"

subsection \<open>getSicDescriptions\<close>

text \<open>
  The object \<^verbatim>\<open>data\<close> of line 241. It is created with the properties \<^verbatim>\<open>recodsCount\<close>
  and \<^verbatim>\<open>records\<close>; the callback of line 254 pushes on \<^verbatim>\<open>records\<close> and adds one to
  \<^verbatim>\<open>recordsCount\<close>, a property the literal does not have, so undefined at first. The
  function returns the object itself (line 265).
\<close>

record sic_data =
  recodsCount :: nat
  records :: "string list"
  recordsCount :: jsvalue

definition getSicDescriptions :: "env \<Rightarrow> string list \<Rightarrow> sic_data \<times> call list" where
  "getSicDescriptions env sicCodes =
     (let searchableSicCodesString = join '' OR '' sicCodes;
          each = (\<lambda>d sicDescription.
                    d\<lparr>records := records d @ [sicDescription],
                      recordsCount := js_plus_one (recordsCount d)\<rparr>)
      in (foldl each \<lparr>recodsCount = 0, records = [], recordsCount = JSUndefined\<rparr>
                (sic_search env searchableSicCodesString),
          [SearchRun searchableSicCodesString]))"

text \<open>\<^verbatim>\<open>sicDescriptions.length\<close> at line 167: the object has no such property, whatever
  the search found, and reading it yields undefined (\<open>None\<close>).\<close>

definition length_property :: "sic_data \<Rightarrow> nat option" where
  "length_property d = None"

subsection \<open>updateClientSicCodes\<close>

definition accepted :: "env \<Rightarrow> string \<Rightarrow> text_arg \<Rightarrow> bool" where
  "accepted env f t =
     (case t of OneText s \<Rightarrow> accepts env f s | TextArray ss \<Rightarrow> list_all (accepts env f) ss)"

text \<open>What a multiple select holds after an accepted \<^verbatim>\<open>setText\<close>: the options of
  the texts given, in their order; the empty text names no option, and alone it clears
  the field.\<close>

definition selection :: "text_arg \<Rightarrow> string list" where
  "selection t =
     (case t of
        OneText s \<Rightarrow> (if s = [] then [] else [s])
      | TextArray ss \<Rightarrow> filter (\<lambda>s. s \<noteq> []) ss)"

definition setText_sic_codes :: "env \<Rightarrow> text_arg \<Rightarrow> customer \<Rightarrow> error + customer" where
  "setText_sic_codes env t r =
     (if accepted env ''custentity_sic_codes'' t
      then Inr (r\<lparr>custentity_sic_codes := selection t\<rparr>)
      else Inl InvalidFieldValue)"

text \<open>
  The loop of lines 130 to 153, on the state it changes: the flag \<^verbatim>\<open>errorFound\<close> and
  the record. An exception of the \<^verbatim>\<open>setText\<close> of line 148 is not caught and ends the
  loop.
\<close>

fun forEach_sicCode ::
  "env \<Rightarrow> string list \<Rightarrow> bool \<Rightarrow> customer \<Rightarrow> error option \<times> bool \<times> customer \<times> call list" where
  "forEach_sicCode env [] errorFound r = (None, errorFound, r, [])"
| "forEach_sicCode env (sicCode # rest) errorFound r =
     (case setText_sic_codes env (OneText sicCode) r of
        Inr r1 \<Rightarrow>
          (case forEach_sicCode env rest errorFound r1 of
             (e, ef, r2, cs) \<Rightarrow>
               (e, ef, r2, SetText ''custentity_sic_codes'' (OneText sicCode) # cs))
      | Inl err \<Rightarrow>
          (case setText_sic_codes env (OneText []) r of
             Inr r1 \<Rightarrow>
               (case forEach_sicCode env rest True r1 of
                  (e, ef, r2, cs) \<Rightarrow>
                    (e, ef, r2,
                     SetText ''custentity_sic_codes'' (OneText sicCode)
                       # SetText ''custentity_sic_codes'' (OneText []) # cs))
           | Inl e \<Rightarrow>
               (Some e, True, r,
                [SetText ''custentity_sic_codes'' (OneText sicCode),
                 SetText ''custentity_sic_codes'' (OneText [])])))"

definition updateClientSicCodes ::
  "env \<Rightarrow> customer \<Rightarrow> string list \<Rightarrow> error option \<times> customer \<times> call list" where
  "updateClientSicCodes env r sicCodes =
     (case forEach_sicCode env sicCodes False r of
        (Some e, errorFound, r1, cs) \<Rightarrow> (Some e, r1, cs)
      | (None, errorFound, r1, cs) \<Rightarrow>
          if \<not> errorFound then
            (case setText_sic_codes env (TextArray sicCodes) r1 of
               Inl e \<Rightarrow>
                 (Some e, r1, cs @ [SetText ''custentity_sic_codes'' (TextArray sicCodes)])
             | Inr r2 \<Rightarrow>
                 (case getSicDescriptions env sicCodes of
                    (sicDescriptions, ds) \<Rightarrow>
                      (case length_property sicDescriptions of
                         None \<Rightarrow>
                           (None, r2,
                            cs @ [SetText ''custentity_sic_codes'' (TextArray sicCodes)] @ ds)
                       | Some n \<Rightarrow>
                           if 0 < n then
                             (Some TypeError, r2,
                              cs @ [SetText ''custentity_sic_codes'' (TextArray sicCodes)] @ ds)
                           else
                             (None, r2,
                              cs @ [SetText ''custentity_sic_codes'' (TextArray sicCodes)] @ ds))))
          else (None, r1, cs))"

subsection \<open>updateClientCompanyStatus and updateClientAccount\<close>

definition updateClientCompanyStatus ::
  "env \<Rightarrow> customer \<Rightarrow> string \<Rightarrow> error option \<times> customer \<times> call list" where
  "updateClientCompanyStatus env r companyStatus =
     (if accepts env ''custentity_company_status'' companyStatus
      then (None, r\<lparr>custentity_company_status := companyStatus\<rparr>,
            [SetText ''custentity_company_status'' (OneText companyStatus)])
      else (Some InvalidFieldValue, r,
            [SetText ''custentity_company_status'' (OneText companyStatus)]))"

definition updateClientAccount :: "customer \<Rightarrow> string \<Rightarrow> customer \<times> call list" where
  "updateClientAccount r companyStatus =
     (if companyStatus \<noteq> ''active'' then
        (let balance' = balance r;
             overdueBalance = overduebalance r;
             unbilledOrders = unbilledorders r
         in if strict_eq_zero balance' \<and> strict_eq_zero overdueBalance
               \<and> strict_eq_zero unbilledOrders
            then (r\<lparr>isinactive := True\<rparr>, [SetValue ''isinactive'' (JSBoolean True)])
            else (r, []))
      else (r, []))"

subsection \<open>getInputData\<close>

text \<open>
  A row of the search of line 280: the internal id of the customer and the columns the
  search asks for. The customers are a table keyed by internal id.
\<close>

record search_result =
  internalid :: nat
  col_entityid :: string
  col_company_no :: string
  col_sic_codes :: "string list"
  col_lastmodifieddate :: nat

type_synonym customers = "(nat \<times> customer) list"

definition to_result :: "nat \<times> customer \<Rightarrow> search_result" where
  "to_result p =
     \<lparr>internalid = fst p,
      col_entityid = entityid (snd p),
      col_company_no = custentity_company_no (snd p),
      col_sic_codes = custentity_sic_codes (snd p),
      col_lastmodifieddate = lastmodifieddate (snd p)\<rparr>"

text \<open>The filter of lines 282 to 286: company number not empty, and not inactive.\<close>

definition search_filter :: "nat \<times> customer \<Rightarrow> bool" where
  "search_filter p = (custentity_company_no (snd p) \<noteq> [] \<and> isinactive (snd p) = False)"

text \<open>The search sorts on \<^verbatim>\<open>lastmodifieddate\<close>, descending; \<^verbatim>\<open>getRange\<close> returns the
  rows from index 0 up to, not including, index 600.\<close>

definition getInputData :: "customers \<Rightarrow> search_result list" where
  "getInputData tbl =
     take 600 (map to_result
       (sort_key (\<lambda>p. - int (lastmodifieddate (snd p))) (filter search_filter tbl)))"

subsection \<open>map\<close>

text \<open>
  The entry point \<^verbatim>\<open>map\<close>, for one row; it is \<open>map_stage\<close> here, \<open>map\<close> being the
  function on lists. It returns what the entry point returns (or the exception it ends
  with), the customers as the store holds them afterwards, and the calls made.
  \<^verbatim>\<open>record.load\<close> throws for an id the store does not have; \<^verbatim>\<open>record.save\<close> writes
  the loaded record back under its id.
\<close>

text \<open>The two guarded blocks of lines 335 to 342.\<close>

definition codes_step ::
  "env \<Rightarrow> customer \<Rightarrow> string list \<Rightarrow> error option \<times> customer \<times> call list" where
  "codes_step env r sicCodes =
     (if 0 < length sicCodes then updateClientSicCodes env r sicCodes else (None, r, []))"

definition status_step ::
  "env \<Rightarrow> customer \<Rightarrow> string \<Rightarrow> error option \<times> customer \<times> call list" where
  "status_step env r companyStatus =
     (if companyStatus \<noteq> [] then
        (case updateClientCompanyStatus env r companyStatus of
           (Some e, r1, cs) \<Rightarrow> (Some e, r1, cs)
         | (None, r1, cs) \<Rightarrow>
             (case updateClientAccount r1 companyStatus of
                (r2, cs') \<Rightarrow> (None, r2, cs @ cs')))
      else (None, r, []))"

definition map_stage ::
  "env \<Rightarrow> search_result \<Rightarrow> customers \<Rightarrow> (error + bool) \<times> customers \<times> call list" where
  "map_stage env v tbl =
     (let companyNo = col_company_no v in
      if companyNo = [] then (Inr True, tbl, [])
      else
        let clientId = internalid v in
        (case getCompaniesHouseApiResponse env companyNo of
           (Inl e, cs0) \<Rightarrow> (Inl e, tbl, cs0)
         | (Inr apiResponse, cs0) \<Rightarrow>
             (case getSicCodesFromCompaniesHouseResponse apiResponse of
                Inl e \<Rightarrow> (Inl e, tbl, cs0)
              | Inr sicCodes \<Rightarrow>
                  (case getCompanyStatusFromCompaniesHouseResponse apiResponse of
                     Inl e \<Rightarrow> (Inl e, tbl, cs0)
                   | Inr companyStatus \<Rightarrow>
                       if 0 < length sicCodes \<or> companyStatus \<noteq> [] then
                         (case map_of tbl clientId of
                            None \<Rightarrow> (Inl RecordNotFound, tbl, cs0 @ [RecordLoad clientId])
                          | Some r \<Rightarrow>
                              (case codes_step env r sicCodes of
                                 (Some e, r1, cs1) \<Rightarrow>
                                   (Inl e, tbl, cs0 @ [RecordLoad clientId] @ cs1)
                               | (None, r1, cs1) \<Rightarrow>
                                   (case status_step env r1 companyStatus of
                                      (Some e, r2, cs2) \<Rightarrow>
                                        (Inl e, tbl, cs0 @ [RecordLoad clientId] @ cs1 @ cs2)
                                    | (None, r2, cs2) \<Rightarrow>
                                        (Inr True, AList.update clientId r2 tbl,
                                         cs0 @ [RecordLoad clientId] @ cs1 @ cs2
                                           @ [RecordSave clientId]))))
                       else (Inr True, tbl, cs0)))))"

subsection \<open>Kinds of calls\<close>

text \<open>A load or a save of a record.\<close>

fun record_io :: "call \<Rightarrow> bool" where
  "record_io (RecordLoad i) = True"
| "record_io (RecordSave i) = True"
| "record_io c = False"

text \<open>The calls that stage a change on the loaded record or search the code table;
  the only value ever staged for \<^verbatim>\<open>isinactive\<close> is \<open>true\<close>.\<close>

fun staged :: "call \<Rightarrow> bool" where
  "staged (SetText f t) = True"
| "staged (SetValue f v) = (f = ''isinactive'' \<and> v = JSBoolean True)"
| "staged (SearchRun k) = True"
| "staged c = False"

text \<open>A write of \<^verbatim>\<open>isinactive\<close> with a value other than \<open>true\<close>.\<close>

fun reactivation :: "call \<Rightarrow> bool" where
  "reactivation (SetValue f v) = (f = ''isinactive'' \<and> v \<noteq> JSBoolean True)"
| "reactivation c = False"

subsection \<open>Example data\<close>

definition acme :: customer where
  "acme =
     \<lparr>entityid = ''ACME'', custentity_company_no = ''1234567'',
      custentity_sic_codes = [''111''], custentity_sic_description = [],
      custentity_company_status = [], balance = JSNumber 0, overduebalance = JSNumber 0,
      unbilledorders = JSNumber 0, isinactive = False, lastmodifieddate = 5\<rparr>"

definition example_customers :: customers where
  "example_customers =
     [(1, acme), (2, acme\<lparr>lastmodifieddate := 9\<rparr>), (3, acme\<lparr>isinactive := True\<rparr>),
      (4, acme\<lparr>custentity_company_no := []\<rparr>)]"

text \<open>A registry that answers every request with \<open>resp\<close>, and a store whose code list
  has the options \<open>620\<close> and \<open>4791\<close> and takes the empty text. The encoding of the
  key plays no part in what follows and is left as the identity.\<close>

definition registry_env :: "response \<Rightarrow> env" where
  "registry_env resp =
     \<lparr>apiKey = ''key'', base64 = (\<lambda>s. s), https_get = (\<lambda>url headers. Inr resp),
      accepts = (\<lambda>f t. f = ''custentity_company_status'' \<or> t \<in> set [[], ''620'', ''4791'']),
      sic_search = (\<lambda>k. [''Support activities for crop production'',
                          ''Retail sale via mail order houses or via Internet''])\<rparr>"

definition example_response :: response where
  "example_response =
     \<lparr>code = 200, body = Profile (Some [''0620'', ''4791'']) (Some ''dissolved'')\<rparr>"

section \<open>Properties\<close>

subsection \<open>The identifier of the request\<close>

lemma digit_not_space: "is_digit c \<Longrightarrow> \<not> is_space c"
  by (auto simp: is_digit_def is_space_def)

lemma seven_digits_not_spaces:
  "list_all is_digit s \<Longrightarrow> length s = 7 \<Longrightarrow> \<not> matches_spaces s"
  by (cases s) (auto simp: matches_spaces_def dest: digit_not_space)

lemma filter_spaces_Nil: "list_all is_space s \<Longrightarrow> filter (\<lambda>c. \<not> is_space c) s = []"
  by (induction s) auto

text \<open>
  Claim C7. The identifier sent to the registry follows three rules: a raw identifier
  of exactly seven digits gets one \<open>0\<close> in front and is then eight characters long; a raw
  identifier made of white space only becomes the empty string; every other raw
  identifier is sent as it is. The two patterns exclude each other, so the order of the
  two tests of the script does not matter. \<open>searchableCompanyId\<close> is a total function from
  strings to strings: it has no failing case.
\<close>

theorem searchableCompanyId_rules:
  "(list_all is_digit raw \<and> length raw = 7 \<longrightarrow>
      searchableCompanyId raw = CHR ''0'' # raw \<and> length (searchableCompanyId raw) = 8)
   \<and> (list_all is_space raw \<longrightarrow> searchableCompanyId raw = [])
   \<and> (\<not> (list_all is_digit raw \<and> length raw = 7) \<and> \<not> list_all is_space raw \<longrightarrow>
        searchableCompanyId raw = raw)"
proof (intro conjI impI)
  assume d: "list_all is_digit raw \<and> length raw = 7"
  then have "raw \<noteq> []" by auto
  with d have m: "matches_digits raw" by (simp add: matches_digits_def)
  from d have "\<not> matches_spaces raw" by (simp add: seven_digits_not_spaces)
  with m d show "searchableCompanyId raw = CHR ''0'' # raw"
    by (simp add: searchableCompanyId_def)
  with d show "length (searchableCompanyId raw) = 8" by simp
next
  assume s: "list_all is_space raw"
  show "searchableCompanyId raw = []"
  proof (cases "raw = []")
    case True
    then show ?thesis
      by (simp add: searchableCompanyId_def matches_digits_def matches_spaces_def)
  next
    case False
    with s have "matches_spaces raw" by (simp add: matches_spaces_def)
    with s show ?thesis by (simp add: searchableCompanyId_def filter_spaces_Nil)
  qed
next
  assume n: "\<not> (list_all is_digit raw \<and> length raw = 7) \<and> \<not> list_all is_space raw"
  then have "\<not> matches_spaces raw" by (simp add: matches_spaces_def)
  moreover from n have "\<not> (matches_digits raw \<and> length raw = 7)"
    by (auto simp: matches_digits_def)
  ultimately show "searchableCompanyId raw = raw"
    by (simp add: searchableCompanyId_def)
qed

theorem searchableCompanyId_rules_witness:
  "searchableCompanyId ''1234567'' = ''01234567''
   \<and> searchableCompanyId [CHR 0x20, CHR 0x09] = []
   \<and> searchableCompanyId ''SC12 345'' = ''SC12 345''"
  using searchableCompanyId_rules [of "''1234567''"]
    searchableCompanyId_rules [of "[CHR 0x20, CHR 0x09]"]
    searchableCompanyId_rules [of "''SC12 345''"]
  by (simp add: is_digit_def is_space_def)

subsection \<open>Reading the response\<close>

lemma push_loop_map:
  "foldl (\<lambda>sicCodes c. sicCodes @ [usableCode c]) acc codes = acc @ map usableCode codes"
  by (induction codes arbitrary: acc) simp_all

lemma getSicCodes_200:
  "getSicCodesFromCompaniesHouseResponse \<lparr>code = 200, body = Profile (Some cs) st\<rparr>
     = Inr (map usableCode cs)"
  by (simp add: getSicCodesFromCompaniesHouseResponse_def push_loop_map)

lemma usableCode_zero: "take 1 c = ''0'' \<Longrightarrow> CHR ''0'' # usableCode c = c"
  by (cases c) (simp_all add: usableCode_def)

lemma usableCode_other: "take 1 c \<noteq> ''0'' \<Longrightarrow> usableCode c = c"
  by (simp add: usableCode_def)

text \<open>
  Claim C6. For a response with status 200 whose body lists the codes \<open>cs\<close>, the reader
  returns a list of the same length, so no code is dropped or merged; at every index, a
  code that begins with \<open>0\<close> and is longer than one character comes out without that
  one \<open>0\<close>, and a code that does not begin with \<open>0\<close> comes out unchanged. Order is
  the order of the indices.
\<close>

theorem leading_zero_stripping:
  "\<exists>out. getSicCodesFromCompaniesHouseResponse \<lparr>code = 200, body = Profile (Some cs) st\<rparr>
            = Inr out
     \<and> length out = length cs
     \<and> (\<forall>i < length cs.
          (take 1 (cs ! i) = ''0'' \<and> 1 < length (cs ! i) \<longrightarrow>
             out ! i = drop 1 (cs ! i) \<and> CHR ''0'' # out ! i = cs ! i)
          \<and> (take 1 (cs ! i) \<noteq> ''0'' \<longrightarrow> out ! i = cs ! i))"
proof (intro exI conjI allI impI)
  show "getSicCodesFromCompaniesHouseResponse \<lparr>code = 200, body = Profile (Some cs) st\<rparr>
          = Inr (map usableCode cs)"
    by (rule getSicCodes_200)
  show "length (map usableCode cs) = length cs" by simp
next
  fix i assume i: "i < length cs" and z: "take 1 (cs ! i) = ''0'' \<and> 1 < length (cs ! i)"
  from i z show "map usableCode cs ! i = drop 1 (cs ! i)" by (simp add: usableCode_def)
  from i z show "CHR ''0'' # map usableCode cs ! i = cs ! i" by (simp add: usableCode_zero)
next
  fix i assume "i < length cs" and "take 1 (cs ! i) \<noteq> ''0''"
  then show "map usableCode cs ! i = cs ! i" by (simp add: usableCode_other)
qed

theorem leading_zero_stripping_witness:
  "getSicCodesFromCompaniesHouseResponse
     \<lparr>code = 200, body = Profile (Some [''0620'', ''4791'', ''0620'']) None\<rparr>
   = Inr [''620'', ''4791'', ''620'']"
  using leading_zero_stripping [of "[''0620'', ''4791'', ''0620'']" None]
  by (simp add: getSicCodes_200 usableCode_def)

text \<open>
  Claim C3, as the script has it. A response whose status is not 200 and whose body
  parses yields no codes and the empty status, whatever the body holds.
\<close>

theorem non_200_with_parsed_body:
  "code r \<noteq> 200 \<Longrightarrow> body r = Profile sic status \<Longrightarrow>
     getSicCodesFromCompaniesHouseResponse r = Inr []
     \<and> getCompanyStatusFromCompaniesHouseResponse r = Inr []"
  by (simp add: getSicCodesFromCompaniesHouseResponse_def
      getCompanyStatusFromCompaniesHouseResponse_def)

theorem non_200_with_parsed_body_witness:
  "getSicCodesFromCompaniesHouseResponse
      \<lparr>code = 404, body = Profile (Some [''0620'']) (Some ''active'')\<rparr> = Inr []
   \<and> getCompanyStatusFromCompaniesHouseResponse
      \<lparr>code = 404, body = Profile (Some [''0620'']) (Some ''active'')\<rparr> = Inr []"
  using non_200_with_parsed_body
    [of "\<lparr>code = 404, body = Profile (Some [''0620'']) (Some ''active'')\<rparr>"
        "Some [''0620'']" "Some ''active''"]
  by simp

text \<open>
  Claim C3 as stated speaks of every response body. A body that is not JSON makes both
  readers throw at their first line, before the status code is looked at: here a 404
  with such a body.
\<close>

theorem non_200_malformed_body_throws:
  "getSicCodesFromCompaniesHouseResponse \<lparr>code = 404, body = Malformed\<rparr> = Inl SyntaxError
   \<and> getCompanyStatusFromCompaniesHouseResponse \<lparr>code = 404, body = Malformed\<rparr>
       = Inl SyntaxError"
  by (simp add: getSicCodesFromCompaniesHouseResponse_def
      getCompanyStatusFromCompaniesHouseResponse_def)

subsection \<open>Deactivation\<close>

text \<open>
  Claim C2. \<open>updateClientAccount\<close> writes \<open>isinactive := true\<close> exactly when the status
  differs from the string \<open>active\<close> and balance, overdue balance and unbilled orders are
  each the number zero; a record that was active is inactive afterwards in exactly that
  case. When the status is \<open>active\<close> or one of the three values is not the number zero,
  the function writes nothing and leaves the record as it was.
\<close>

theorem deactivation_guard:
  "(\<not> isinactive r \<longrightarrow>
      isinactive (fst (updateClientAccount r companyStatus))
        = (companyStatus \<noteq> ''active'' \<and> balance r = JSNumber 0
           \<and> overduebalance r = JSNumber 0 \<and> unbilledorders r = JSNumber 0))
   \<and> (SetValue ''isinactive'' (JSBoolean True) \<in> set (snd (updateClientAccount r companyStatus)))
       = (companyStatus \<noteq> ''active'' \<and> balance r = JSNumber 0
          \<and> overduebalance r = JSNumber 0 \<and> unbilledorders r = JSNumber 0)
   \<and> (companyStatus = ''active'' \<or> balance r \<noteq> JSNumber 0
        \<or> overduebalance r \<noteq> JSNumber 0 \<or> unbilledorders r \<noteq> JSNumber 0 \<longrightarrow>
          updateClientAccount r companyStatus = (r, []))"
  by (simp add: updateClientAccount_def strict_eq_zero_def Let_def)

theorem deactivation_guard_witness:
  "isinactive (fst (updateClientAccount acme ''dissolved''))
   \<and> isinactive (fst (updateClientAccount acme ''Active''))
   \<and> updateClientAccount acme ''active'' = (acme, [])
   \<and> updateClientAccount (acme\<lparr>overduebalance := JSNumber (1 / 100)\<rparr>) ''dissolved''
       = (acme\<lparr>overduebalance := JSNumber (1 / 100)\<rparr>, [])"
  using deactivation_guard [of acme "''dissolved''"]
    deactivation_guard [of acme "''Active''"]
    deactivation_guard [of acme "''active''"]
    deactivation_guard [of "acme\<lparr>overduebalance := JSNumber (1 / 100)\<rparr>" "''dissolved''"]
  by (simp add: acme_def)

subsection \<open>The input stage\<close>

lemma search_sorted:
  "sorted_wrt (\<lambda>a b. col_lastmodifieddate b \<le> col_lastmodifieddate a)
     (map to_result (sort_key (\<lambda>p. - int (lastmodifieddate (snd p))) xs))"
proof -
  have "sorted (map (\<lambda>p. - int (lastmodifieddate (snd p)))
                 (sort_key (\<lambda>p. - int (lastmodifieddate (snd p))) xs))"
    by (rule sorted_sort_key)
  then have "sorted_wrt (\<lambda>p q. lastmodifieddate (snd q) \<le> lastmodifieddate (snd p))
               (sort_key (\<lambda>p. - int (lastmodifieddate (snd p))) xs)"
    by (simp add: sorted_map)
  then show ?thesis
    by (simp add: sorted_wrt_map to_result_def)
qed

lemma search_rows:
  "v \<in> set (map to_result (sort_key k (filter search_filter tbl))) \<Longrightarrow>
     \<exists>c. (internalid v, c) \<in> set tbl \<and> v = to_result (internalid v, c)
         \<and> isinactive c = False \<and> custentity_company_no c \<noteq> []"
  by (auto simp: search_filter_def to_result_def)

lemma getInputData_example:
  "getInputData example_customers
     = [to_result (2, acme\<lparr>lastmodifieddate := 9\<rparr>), to_result (1, acme)]"
  by (simp add: getInputData_def search_filter_def acme_def example_customers_def)

text \<open>
  Claim C5. Whatever the customers are, \<open>getInputData\<close> returns at most 600 rows, the
  later modified before the earlier, and every row is the row of a customer of the table
  that is not inactive and has a company number that is not empty. The bound is the
  range the function itself asks for: it returns all the rows that pass the filter when
  they are 600 or fewer, and 600 of them otherwise.
\<close>

theorem getInputData_bounded_ordered:
  "length (getInputData tbl) \<le> 600
   \<and> length (getInputData tbl) = min 600 (length (filter search_filter tbl))
   \<and> sorted_wrt (\<lambda>a b. col_lastmodifieddate b \<le> col_lastmodifieddate a) (getInputData tbl)
   \<and> (\<forall>v \<in> set (getInputData tbl).
         col_company_no v \<noteq> []
         \<and> (\<exists>c. (internalid v, c) \<in> set tbl \<and> v = to_result (internalid v, c)
                \<and> isinactive c = False \<and> custentity_company_no c \<noteq> []))"
proof (intro conjI ballI)
  show "length (getInputData tbl) \<le> 600"
    by (simp add: getInputData_def)
  show "length (getInputData tbl) = min 600 (length (filter search_filter tbl))"
    by (simp add: getInputData_def min.commute)
  show "sorted_wrt (\<lambda>a b. col_lastmodifieddate b \<le> col_lastmodifieddate a) (getInputData tbl)"
    unfolding getInputData_def by (intro sorted_wrt_take search_sorted)
next
  fix v assume "v \<in> set (getInputData tbl)"
  then have "v \<in> set (map to_result
      (sort_key (\<lambda>p. - int (lastmodifieddate (snd p))) (filter search_filter tbl)))"
    unfolding getInputData_def by (rule in_set_takeD)
  then have ex: "\<exists>c. (internalid v, c) \<in> set tbl \<and> v = to_result (internalid v, c)
         \<and> isinactive c = False \<and> custentity_company_no c \<noteq> []"
    by (rule search_rows)
  then show "\<exists>c. (internalid v, c) \<in> set tbl \<and> v = to_result (internalid v, c)
         \<and> isinactive c = False \<and> custentity_company_no c \<noteq> []" .
  from ex obtain c where "v = to_result (internalid v, c)" "custentity_company_no c \<noteq> []"
    by blast
  then show "col_company_no v \<noteq> []"
    by (metis search_result.select_convs(3) snd_conv to_result_def)
qed

theorem getInputData_bounded_ordered_witness:
  "length (getInputData example_customers) \<le> 600
   \<and> map internalid (getInputData example_customers) = [2, 1]
   \<and> map col_lastmodifieddate (getInputData example_customers) = [9, 5]"
  using getInputData_bounded_ordered [of example_customers]
  by (simp add: getInputData_example to_result_def acme_def)

subsection \<open>The loop over the codes\<close>

lemma setText_sic_codes_frame:
  "setText_sic_codes env t r = Inr r' \<Longrightarrow> r' = r\<lparr>custentity_sic_codes := selection t\<rparr>"
  by (auto simp: setText_sic_codes_def split: if_splits)

lemma same_but_sic_codes_refl: "\<exists>s. r = r\<lparr>custentity_sic_codes := s\<rparr>"
  by (rule exI [of _ "custentity_sic_codes r"]) simp

text \<open>The loop touches no field of the record but the code list.\<close>

lemma forEach_frame:
  "forEach_sicCode env codes ef r = (e, ef', r', cs) \<Longrightarrow>
     \<exists>s. r' = r\<lparr>custentity_sic_codes := s\<rparr>"
proof (induction codes arbitrary: ef r e ef' r' cs)
  case Nil
  then show ?case by (simp add: same_but_sic_codes_refl)
next
  case (Cons c codes)
  show ?case
  proof (cases "setText_sic_codes env (OneText c) r")
    case (Inr r1)
    obtain e1 ef1 r2 cs1 where f: "forEach_sicCode env codes ef r1 = (e1, ef1, r2, cs1)"
      by (metis prod_cases4)
    with Cons.prems Inr have "r' = r2" by simp
    moreover from Cons.IH [OF f] obtain s where "r2 = r1\<lparr>custentity_sic_codes := s\<rparr>" ..
    moreover note setText_sic_codes_frame [OF Inr]
    ultimately show ?thesis by auto
  next
    case (Inl err)
    show ?thesis
    proof (cases "setText_sic_codes env (OneText []) r")
      case (Inr r1)
      obtain e1 ef1 r2 cs1 where f: "forEach_sicCode env codes True r1 = (e1, ef1, r2, cs1)"
        by (metis prod_cases4)
      with Cons.prems Inl Inr have "r' = r2" by simp
      moreover from Cons.IH [OF f] obtain s where "r2 = r1\<lparr>custentity_sic_codes := s\<rparr>" ..
      moreover note setText_sic_codes_frame [OF Inr]
      ultimately show ?thesis by auto
    next
      case (Inl e2)
      with Cons.prems \<open>setText_sic_codes env (OneText c) r = Inl err\<close> have "r' = r" by simp
      then show ?thesis by (simp add: same_but_sic_codes_refl)
    qed
  qed
qed

lemma forEach_calls:
  "forEach_sicCode env codes ef r = (e, ef', r', cs) \<Longrightarrow> list_all staged cs"
  by (induction codes arbitrary: ef r e ef' r' cs)
     (auto split: sum.splits prod.splits)

text \<open>When the store takes every code, the loop ends with the flag as it was and the
  field on the last code.\<close>

lemma forEach_all_accepted:
  "list_all (accepts env ''custentity_sic_codes'') codes \<Longrightarrow>
     forEach_sicCode env codes ef r
       = (None, ef,
          (if codes = [] then r
           else r\<lparr>custentity_sic_codes := selection (OneText (last codes))\<rparr>),
          map (\<lambda>c. SetText ''custentity_sic_codes'' (OneText c)) codes)"
  by (induction codes arbitrary: r)
     (simp_all add: setText_sic_codes_def accepted_def)

text \<open>The flag records whether a code was refused.\<close>

lemma forEach_flag:
  "forEach_sicCode env codes ef r = (None, ef', r', cs) \<Longrightarrow>
     ef' = (ef \<or> \<not> list_all (accepts env ''custentity_sic_codes'') codes)"
proof (induction codes arbitrary: ef r ef' r' cs)
  case Nil
  then show ?case by simp
next
  case (Cons c codes)
  show ?case
  proof (cases "accepts env ''custentity_sic_codes'' c")
    case True
    then obtain r1 where s: "setText_sic_codes env (OneText c) r = Inr r1"
      by (simp add: setText_sic_codes_def accepted_def)
    with Cons.prems have "forEach_sicCode env codes ef r1 = (None, ef', r', tl cs)"
      by (auto split: prod.splits)
    from Cons.IH [OF this] True show ?thesis by simp
  next
    case False
    then have s: "setText_sic_codes env (OneText c) r = Inl InvalidFieldValue"
      by (simp add: setText_sic_codes_def accepted_def)
    with Cons.prems obtain r1
      where "forEach_sicCode env codes True r1 = (None, ef', r', tl (tl cs))"
      by (auto split: prod.splits sum.splits)
    from Cons.IH [OF this] False show ?thesis by simp
  qed
qed

text \<open>
  What the loop leaves on the record, for a store that takes the empty text: each
  iteration overwrites the field, so the field ends on the last code when the store takes
  it, and empty when it does not, whatever happened to the codes before.
\<close>

lemma forEach_outcome:
  assumes clear: "accepts env ''custentity_sic_codes'' []"
  shows "\<exists>cs. forEach_sicCode env codes ef r
           = (None, ef \<or> \<not> list_all (accepts env ''custentity_sic_codes'') codes,
              (if codes = [] then r
               else r\<lparr>custentity_sic_codes :=
                      (if accepts env ''custentity_sic_codes'' (last codes)
                       then selection (OneText (last codes)) else [])\<rparr>),
              cs)"
proof (induction codes arbitrary: ef r)
  case Nil
  show ?case by simp
next
  case (Cons c codes)
  show ?case
  proof (cases "accepts env ''custentity_sic_codes'' c")
    case True
    from Cons [of ef "r\<lparr>custentity_sic_codes := selection (OneText c)\<rparr>"] obtain cs
      where "forEach_sicCode env codes ef (r\<lparr>custentity_sic_codes := selection (OneText c)\<rparr>)
         = (None, ef \<or> \<not> list_all (accepts env ''custentity_sic_codes'') codes,
            (if codes = [] then r\<lparr>custentity_sic_codes := selection (OneText c)\<rparr>
             else r\<lparr>custentity_sic_codes := selection (OneText c)\<rparr>
                   \<lparr>custentity_sic_codes :=
                      (if accepts env ''custentity_sic_codes'' (last codes)
                       then selection (OneText (last codes)) else [])\<rparr>),
            cs)" ..
    with True show ?thesis
      by (simp add: setText_sic_codes_def accepted_def)
  next
    case False
    from Cons [of True "r\<lparr>custentity_sic_codes := selection (OneText [])\<rparr>"] obtain cs
      where "forEach_sicCode env codes True (r\<lparr>custentity_sic_codes := selection (OneText [])\<rparr>)
         = (None, True \<or> \<not> list_all (accepts env ''custentity_sic_codes'') codes,
            (if codes = [] then r\<lparr>custentity_sic_codes := selection (OneText [])\<rparr>
             else r\<lparr>custentity_sic_codes := selection (OneText [])\<rparr>
                   \<lparr>custentity_sic_codes :=
                      (if accepts env ''custentity_sic_codes'' (last codes)
                       then selection (OneText (last codes)) else [])\<rparr>),
            cs)" ..
    with False clear show ?thesis
      by (simp add: setText_sic_codes_def accepted_def selection_def)
  qed
qed

subsection \<open>updateClientSicCodes\<close>

lemma getSicDescriptions_calls:
  "snd (getSicDescriptions env codes) = [SearchRun (join '' OR '' codes)]"
  by (simp add: getSicDescriptions_def Let_def)

text \<open>The function changes the code list and nothing else, and its calls are writes of
  fields and the search.\<close>

lemma updateClientSicCodes_frame:
  assumes "updateClientSicCodes env r codes = (e, r', cs)"
  shows "(\<exists>s. r' = r\<lparr>custentity_sic_codes := s\<rparr>) \<and> list_all staged cs"
proof -
  obtain e1 ef r1 cs1 where f: "forEach_sicCode env codes False r = (e1, ef, r1, cs1)"
    by (metis prod_cases4)
  from forEach_frame [OF f] obtain s1 where r1: "r1 = r\<lparr>custentity_sic_codes := s1\<rparr>" ..
  from forEach_calls [OF f] have cs1: "list_all staged cs1" .
  show ?thesis
  proof (cases "e1 = None \<and> \<not> ef")
    case False
    with assms f have "r' = r1" "cs = cs1"
      by (auto simp: updateClientSicCodes_def split: option.splits)
    with r1 cs1 show ?thesis by auto
  next
    case True
    show ?thesis
    proof (cases "setText_sic_codes env (TextArray codes) r1")
      case (Inl err)
      with assms f True have "r' = r1"
        "cs = cs1 @ [SetText ''custentity_sic_codes'' (TextArray codes)]"
        by (auto simp: updateClientSicCodes_def)
      with r1 cs1 show ?thesis by auto
    next
      case (Inr r2)
      with assms f True have "r' = r2"
        "cs = cs1 @ [SetText ''custentity_sic_codes'' (TextArray codes)]
                @ snd (getSicDescriptions env codes)"
        by (auto simp: updateClientSicCodes_def length_property_def split: prod.splits)
      with r1 cs1 setText_sic_codes_frame [OF Inr] show ?thesis
        by (auto simp: getSicDescriptions_calls)
    qed
  qed
qed

text \<open>
  In particular the description is never written, for any store, record and codes: the
  test of line 167 reads \<^verbatim>\<open>length\<close> of the object that \<open>getSicDescriptions\<close> returns,
  not of its \<^verbatim>\<open>records\<close>.
\<close>

lemma description_never_written:
  "updateClientSicCodes env r codes = (e, r', cs) \<Longrightarrow>
     custentity_sic_description r' = custentity_sic_description r"
  by (auto dest: updateClientSicCodes_frame)

text \<open>
  A batch with a refused code, for a store that takes the empty text: the function
  returns normally and the field holds what the loop left, that is the last code when
  the store takes it and nothing when it does not.
\<close>

lemma rejected_batch_outcome:
  assumes clear: "accepts env ''custentity_sic_codes'' []"
    and rejected: "\<not> list_all (accepts env ''custentity_sic_codes'') codes"
  shows "\<exists>cs. updateClientSicCodes env r codes
           = (None,
              r\<lparr>custentity_sic_codes :=
                  (if accepts env ''custentity_sic_codes'' (last codes)
                   then selection (OneText (last codes)) else [])\<rparr>,
              cs)"
proof -
  from rejected have ne: "codes \<noteq> []" by auto
  from forEach_outcome [OF clear, of codes False r] obtain cs
    where "forEach_sicCode env codes False r
           = (None, False \<or> \<not> list_all (accepts env ''custentity_sic_codes'') codes,
              (if codes = [] then r
               else r\<lparr>custentity_sic_codes :=
                      (if accepts env ''custentity_sic_codes'' (last codes)
                       then selection (OneText (last codes)) else [])\<rparr>),
              cs)" ..
  with rejected ne show ?thesis
    by (simp add: updateClientSicCodes_def)
qed

text \<open>
  Claim C1, at the input where the script departs from it. The store refuses \<open>9999\<close>
  and takes \<open>620\<close>; the refused code comes first. The loop clears the field after the
  refusal and then sets \<open>620\<close>; the function returns with \<open>620\<close> on the record, which
  the map stage goes on to save.
\<close>

theorem later_valid_code_is_retained:
  "updateClientSicCodes (registry_env example_response) acme [''9999'', ''620'']
     = (None, acme\<lparr>custentity_sic_codes := [''620'']\<rparr>,
        [SetText ''custentity_sic_codes'' (OneText ''9999''),
         SetText ''custentity_sic_codes'' (OneText []),
         SetText ''custentity_sic_codes'' (OneText ''620'')])"
  by (simp add: updateClientSicCodes_def setText_sic_codes_def accepted_def registry_env_def
      selection_def)

text \<open>
  Claim C4, as the script has it. When the store takes every code of the batch, the
  function returns normally, having set each code in turn, then the whole list in its
  order, and then having called the description search once, on the codes joined by
  \<open>OR\<close>; the field holds the list. This is so for a batch of one code as for a batch of
  several.
\<close>

theorem clean_batch_sets_codes_and_searches:
  "list_all (accepts env ''custentity_sic_codes'') codes \<Longrightarrow>
     \<exists>r'. updateClientSicCodes env r codes
            = (None, r',
               map (\<lambda>c. SetText ''custentity_sic_codes'' (OneText c)) codes
                 @ [SetText ''custentity_sic_codes'' (TextArray codes),
                    SearchRun (join '' OR '' codes)])
        \<and> custentity_sic_codes r' = selection (TextArray codes)"
proof -
  assume a: "list_all (accepts env ''custentity_sic_codes'') codes"
  then have t: "accepted env ''custentity_sic_codes'' (TextArray codes)"
    by (simp add: accepted_def)
  obtain d ds where g: "getSicDescriptions env codes = (d, ds)"
    by (cases "getSicDescriptions env codes")
  with getSicDescriptions_calls [of env codes] have "ds = [SearchRun (join '' OR '' codes)]"
    by simp
  with a t g show ?thesis
    by (simp add: updateClientSicCodes_def forEach_all_accepted setText_sic_codes_def
        length_property_def)
qed

theorem clean_batch_sets_codes_and_searches_witness:
  "snd (snd (updateClientSicCodes (registry_env example_response) acme [''620'', ''4791'']))
     = [SetText ''custentity_sic_codes'' (OneText ''620''),
        SetText ''custentity_sic_codes'' (OneText ''4791''),
        SetText ''custentity_sic_codes'' (TextArray [''620'', ''4791'']),
        SearchRun ''620 OR 4791'']
   \<and> custentity_sic_codes
        (fst (snd (updateClientSicCodes (registry_env example_response) acme
                     [''620'', ''4791''])))
     = [''620'', ''4791'']"
  using clean_batch_sets_codes_and_searches
    [of "registry_env example_response" "[''620'', ''4791'']" acme]
  by (auto simp: registry_env_def selection_def)

text \<open>
  Claim C4 as stated has the resolver used only when more than one code was applied.
  Here one code is applied, and the search is called.
\<close>

theorem single_code_invokes_resolver:
  "length [''620''] = 1
   \<and> SearchRun ''620''
       \<in> set (snd (snd (updateClientSicCodes (registry_env example_response) acme [''620''])))"
  by (simp add: updateClientSicCodes_def setText_sic_codes_def accepted_def registry_env_def
      getSicDescriptions_def length_property_def Let_def)

subsection \<open>The map stage\<close>

lemma staged_no_record_io: "list_all staged cs \<Longrightarrow> filter record_io cs = []"
proof (induction cs)
  case Nil
  then show ?case by simp
next
  case (Cons c cs)
  then show ?case by (cases c) simp_all
qed

lemma staged_no_reactivation: "list_all staged cs \<Longrightarrow> list_all (\<lambda>c. \<not> reactivation c) cs"
proof (induction cs)
  case Nil
  then show ?case by simp
next
  case (Cons c cs)
  then show ?case by (cases c) simp_all
qed

lemma codes_step_frame:
  "codes_step env r codes = (e, r', cs) \<Longrightarrow>
     (\<exists>s. r' = r\<lparr>custentity_sic_codes := s\<rparr>) \<and> list_all staged cs"
  by (auto simp: codes_step_def same_but_sic_codes_refl split: if_splits
      dest: updateClientSicCodes_frame)

lemma status_step_frame:
  "status_step env r st = (e, r', cs) \<Longrightarrow>
     (isinactive r \<longrightarrow> isinactive r') \<and> list_all staged cs"
  by (auto simp: status_step_def updateClientCompanyStatus_def updateClientAccount_def Let_def
      split: if_splits)

lemma lookup_calls:
  "snd (getCompaniesHouseApiResponse env n)
     = [LookupFields,
        HttpsGet (''https://api.companieshouse.gov.uk/company/'' @ searchableCompanyId n)]"
  by (simp add: getCompaniesHouseApiResponse_def Let_def)

text \<open>The three ways through the stage once the response has been read.\<close>

lemma map_stage_no_data:
  assumes "col_company_no v \<noteq> []"
    and "getCompaniesHouseApiResponse env (col_company_no v) = (Inr resp, cs0)"
    and "getSicCodesFromCompaniesHouseResponse resp = Inr []"
    and "getCompanyStatusFromCompaniesHouseResponse resp = Inr []"
  shows "map_stage env v tbl = (Inr True, tbl, cs0)"
  using assms by (simp add: map_stage_def Let_def)

lemma map_stage_not_found:
  assumes "col_company_no v \<noteq> []"
    and "getCompaniesHouseApiResponse env (col_company_no v) = (Inr resp, cs0)"
    and "getSicCodesFromCompaniesHouseResponse resp = Inr codes"
    and "getCompanyStatusFromCompaniesHouseResponse resp = Inr st"
    and "codes \<noteq> [] \<or> st \<noteq> []"
    and "map_of tbl (internalid v) = None"
  shows "map_stage env v tbl = (Inl RecordNotFound, tbl, cs0 @ [RecordLoad (internalid v)])"
  using assms by (auto simp: map_stage_def Let_def)

lemma map_stage_loaded:
  assumes "col_company_no v \<noteq> []"
    and "getCompaniesHouseApiResponse env (col_company_no v) = (Inr resp, cs0)"
    and "getSicCodesFromCompaniesHouseResponse resp = Inr codes"
    and "getCompanyStatusFromCompaniesHouseResponse resp = Inr st"
    and "codes \<noteq> [] \<or> st \<noteq> []"
    and "map_of tbl (internalid v) = Some r"
    and "codes_step env r codes = (e1, r1, cs1)"
    and "status_step env r1 st = (e2, r2, cs2)"
  shows "map_stage env v tbl =
     (case e1 of
        Some e \<Rightarrow> (Inl e, tbl, cs0 @ [RecordLoad (internalid v)] @ cs1)
      | None \<Rightarrow>
          (case e2 of
             Some e \<Rightarrow> (Inl e, tbl, cs0 @ [RecordLoad (internalid v)] @ cs1 @ cs2)
           | None \<Rightarrow>
               (Inr True, AList.update (internalid v) r2 tbl,
                cs0 @ [RecordLoad (internalid v)] @ cs1 @ cs2 @ [RecordSave (internalid v)])))"
  using assms by (auto simp: map_stage_def Let_def split: option.splits)

lemma example_run:
  "map_stage (registry_env example_response) (to_result (3, acme\<lparr>isinactive := True\<rparr>))
      example_customers
   = (Inr True,
      [(1, acme), (2, acme\<lparr>lastmodifieddate := 9\<rparr>),
       (3, acme\<lparr>custentity_sic_codes := [''620'', ''4791''],
                custentity_company_status := ''dissolved'', isinactive := True\<rparr>),
       (4, acme\<lparr>custentity_company_no := []\<rparr>)],
      [LookupFields, HttpsGet ''https://api.companieshouse.gov.uk/company/01234567'',
       RecordLoad 3,
       SetText ''custentity_sic_codes'' (OneText ''620''),
       SetText ''custentity_sic_codes'' (OneText ''4791''),
       SetText ''custentity_sic_codes'' (TextArray [''620'', ''4791'']),
       SearchRun ''620 OR 4791'',
       SetText ''custentity_company_status'' (OneText ''dissolved''),
       SetValue ''isinactive'' (JSBoolean True),
       RecordSave 3])"
  by (simp add: map_stage_def registry_env_def example_response_def to_result_def acme_def
      example_customers_def getCompaniesHouseApiResponse_def searchableCompanyId_def
      matches_digits_def matches_spaces_def is_digit_def is_space_def
      getSicCodesFromCompaniesHouseResponse_def getCompanyStatusFromCompaniesHouseResponse_def
      usableCode_def codes_step_def status_step_def updateClientSicCodes_def
      setText_sic_codes_def accepted_def selection_def getSicDescriptions_def
      length_property_def updateClientCompanyStatus_def updateClientAccount_def
      strict_eq_zero_def Let_def)

text \<open>
  Claim C8. For a row with a company number whose response was read as the codes
  \<open>codes\<close> and the status \<open>st\<close>: when both are empty the stage returns normally, the
  customers are as they were, and the only calls are the lookup of the key and the
  request; when one of them is not empty the stage loads the record of the row once and
  either saves it once, at the end of a normal run, or ends with an exception, with no
  save and the customers as they were. So a load or a save is made only when the codes or
  the status are not empty.
\<close>

theorem no_data_frame:
  assumes no: "col_company_no v \<noteq> []"
    and api: "getCompaniesHouseApiResponse env (col_company_no v) = (Inr resp, cs0)"
    and sic: "getSicCodesFromCompaniesHouseResponse resp = Inr codes"
    and sta: "getCompanyStatusFromCompaniesHouseResponse resp = Inr st"
  shows "(codes = [] \<and> st = [] \<longrightarrow>
            map_stage env v tbl
              = (Inr True, tbl,
                 [LookupFields,
                  HttpsGet (''https://api.companieshouse.gov.uk/company/''
                              @ searchableCompanyId (col_company_no v))]))
         \<and> (codes \<noteq> [] \<or> st \<noteq> [] \<longrightarrow>
              (\<exists>tbl' cs. map_stage env v tbl = (Inr True, tbl', cs)
                  \<and> filter record_io cs
                      = [RecordLoad (internalid v), RecordSave (internalid v)])
              \<or> (\<exists>e cs. map_stage env v tbl = (Inl e, tbl, cs)
                  \<and> filter record_io cs = [RecordLoad (internalid v)]))
         \<and> (filter record_io (snd (snd (map_stage env v tbl))) \<noteq> [] \<longrightarrow>
              codes \<noteq> [] \<or> st \<noteq> [])"
proof -
  from api lookup_calls [of env "col_company_no v"]
  have cs0: "cs0 = [LookupFields,
      HttpsGet (''https://api.companieshouse.gov.uk/company/''
                  @ searchableCompanyId (col_company_no v))]"
    by simp
  have empty: "map_stage env v tbl = (Inr True, tbl, cs0)" if "codes = [] \<and> st = []"
    using that no api sic sta by (simp add: map_stage_no_data)
  have some: "(\<exists>tbl' cs. map_stage env v tbl = (Inr True, tbl', cs)
                  \<and> filter record_io cs
                      = [RecordLoad (internalid v), RecordSave (internalid v)])
              \<or> (\<exists>e cs. map_stage env v tbl = (Inl e, tbl, cs)
                  \<and> filter record_io cs = [RecordLoad (internalid v)])"
    if d: "codes \<noteq> [] \<or> st \<noteq> []"
  proof (cases "map_of tbl (internalid v)")
    case None
    from map_stage_not_found [OF no api sic sta d None] cs0 show ?thesis by simp
  next
    case (Some r)
    obtain e1 r1 cs1 where a: "codes_step env r codes = (e1, r1, cs1)"
      by (metis prod_cases3)
    obtain e2 r2 cs2 where b: "status_step env r1 st = (e2, r2, cs2)"
      by (metis prod_cases3)
    from codes_step_frame [OF a] have f1: "filter record_io cs1 = []"
      by (simp add: staged_no_record_io)
    from status_step_frame [OF b] have f2: "filter record_io cs2 = []"
      by (simp add: staged_no_record_io)
    from map_stage_loaded [OF no api sic sta d Some a b] cs0 f1 f2 show ?thesis
      by (cases e1; cases e2) simp_all
  qed
  from empty some cs0 show ?thesis by auto
qed

theorem no_data_frame_witness:
  "map_stage (registry_env \<lparr>code = 404, body = Profile None None\<rparr>) (to_result (1, acme))
       example_customers
     = (Inr True, example_customers,
        [LookupFields, HttpsGet ''https://api.companieshouse.gov.uk/company/01234567''])
   \<and> filter record_io
        (snd (snd (map_stage (registry_env example_response)
                     (to_result (3, acme\<lparr>isinactive := True\<rparr>)) example_customers)))
     = [RecordLoad 3, RecordSave 3]"
  using no_data_frame
    [of "to_result (1, acme)" "registry_env \<lparr>code = 404, body = Profile None None\<rparr>"
        "\<lparr>code = 404, body = Profile None None\<rparr>"
        "[LookupFields, HttpsGet ''https://api.companieshouse.gov.uk/company/01234567'']"
        "[]" "[]" example_customers]
    example_run
  by (simp add: registry_env_def to_result_def acme_def getCompaniesHouseApiResponse_def
      searchableCompanyId_def matches_digits_def matches_spaces_def is_digit_def is_space_def
      getSicCodesFromCompaniesHouseResponse_def getCompanyStatusFromCompaniesHouseResponse_def)

text \<open>Every run of the stage: no call writes \<^verbatim>\<open>isinactive\<close> with a value other than
  \<open>true\<close>, and the customers afterwards are the customers before, but for the record of
  the row, which is not made active if it was inactive.\<close>

lemma map_stage_shape:
  "\<exists>out tbl' cs. map_stage env v tbl = (out, tbl', cs)
     \<and> list_all (\<lambda>c. \<not> reactivation c) cs
     \<and> (tbl' = tbl
        \<or> (\<exists>r r2. map_of tbl (internalid v) = Some r \<and> (isinactive r \<longrightarrow> isinactive r2)
              \<and> tbl' = AList.update (internalid v) r2 tbl))"
proof (cases "col_company_no v = []")
  case True
  then show ?thesis by (simp add: map_stage_def)
next
  case no: False
  obtain res cs0 where api: "getCompaniesHouseApiResponse env (col_company_no v) = (res, cs0)"
    by (cases "getCompaniesHouseApiResponse env (col_company_no v)")
  with lookup_calls [of env "col_company_no v"]
  have cs0: "list_all (\<lambda>c. \<not> reactivation c) cs0" by auto
  show ?thesis
  proof (cases res)
    case (Inl e)
    with no api cs0 show ?thesis by (simp add: map_stage_def)
  next
    case (Inr resp)
    note api' = api [unfolded Inr]
    show ?thesis
    proof (cases "getSicCodesFromCompaniesHouseResponse resp")
      case (Inl e)
      with no api' cs0 show ?thesis by (simp add: map_stage_def)
    next
      case sic: (Inr codes)
      show ?thesis
      proof (cases "getCompanyStatusFromCompaniesHouseResponse resp")
        case (Inl e)
        with no api' sic cs0 show ?thesis by (simp add: map_stage_def)
      next
        case sta: (Inr st)
        show ?thesis
        proof (cases "codes \<noteq> [] \<or> st \<noteq> []")
          case False
          with map_stage_no_data [OF no api', of tbl] sic sta cs0 show ?thesis by simp
        next
          case d: True
          show ?thesis
          proof (cases "map_of tbl (internalid v)")
            case None
            from map_stage_not_found [OF no api' sic sta d None] cs0 show ?thesis by simp
          next
            case (Some r)
            obtain e1 r1 cs1 where a: "codes_step env r codes = (e1, r1, cs1)"
              by (metis prod_cases3)
            obtain e2 r2 cs2 where b: "status_step env r1 st = (e2, r2, cs2)"
              by (metis prod_cases3)
            from codes_step_frame [OF a]
            have f1: "list_all (\<lambda>c. \<not> reactivation c) cs1" "isinactive r1 = isinactive r"
              by (auto simp: staged_no_reactivation)
            from status_step_frame [OF b]
            have f2: "list_all (\<lambda>c. \<not> reactivation c) cs2" "isinactive r1 \<longrightarrow> isinactive r2"
              by (auto simp: staged_no_reactivation)
            from map_stage_loaded [OF no api' sic sta d Some a b] cs0 f1 f2 Some show ?thesis
              by (cases e1; cases e2) auto
          qed
        qed
      qed
    qed
  qed
qed

text \<open>
  Claim C9. Whatever the registry answers and the store accepts, a customer that is
  inactive before the map stage runs on a row is inactive after it, be it the customer of
  the row or another; and every write of \<^verbatim>\<open>isinactive\<close> the stage makes has the value
  \<open>true\<close>.
\<close>

theorem deactivation_one_way:
  "(map_of tbl i = Some c \<and> isinactive c \<longrightarrow>
      (\<exists>c'. map_of (fst (snd (map_stage env v tbl))) i = Some c' \<and> isinactive c'))
   \<and> (\<forall>x. SetValue ''isinactive'' x \<in> set (snd (snd (map_stage env v tbl))) \<longrightarrow>
          x = JSBoolean True)"
proof -
  from map_stage_shape [of env v tbl] obtain out tbl' cs
    where m: "map_stage env v tbl = (out, tbl', cs)"
      and cs: "list_all (\<lambda>c. \<not> reactivation c) cs"
      and t: "tbl' = tbl
        \<or> (\<exists>r r2. map_of tbl (internalid v) = Some r \<and> (isinactive r \<longrightarrow> isinactive r2)
              \<and> tbl' = AList.update (internalid v) r2 tbl)"
    by blast
  have "\<exists>c'. map_of tbl' i = Some c' \<and> isinactive c'" if "map_of tbl i = Some c \<and> isinactive c"
    using that t by (auto simp: update_conv')
  moreover have "x = JSBoolean True" if "SetValue ''isinactive'' x \<in> set cs" for x
  proof -
    from cs that have "\<not> reactivation (SetValue ''isinactive'' x)"
      by (auto simp: list_all_iff)
    then show ?thesis by simp
  qed
  ultimately show ?thesis using m by simp
qed

theorem deactivation_one_way_witness:
  "\<exists>c'. map_of (fst (snd (map_stage (registry_env example_response)
                            (to_result (3, acme\<lparr>isinactive := True\<rparr>)) example_customers))) 3
           = Some c'
        \<and> isinactive c'"
  using deactivation_one_way
    [of example_customers 3 "acme\<lparr>isinactive := True\<rparr>" "registry_env example_response"
        "to_result (3, acme\<lparr>isinactive := True\<rparr>)"]
  by (simp add: example_customers_def)

text \<open>
  Claim C10. A response with status 200 whose only code is \<open>0\<close> is read as the list of
  one empty string; the map stage then loads the record and hands that list to
  \<open>updateClientSicCodes\<close>, which calls \<^verbatim>\<open>setText\<close> with the empty text.
\<close>

theorem lone_zero_code_becomes_empty:
  "getSicCodesFromCompaniesHouseResponse \<lparr>code = 200, body = Profile (Some [''0'']) None\<rparr>
     = Inr [[]]
   \<and> snd (snd (map_stage (registry_env \<lparr>code = 200, body = Profile (Some [''0'']) None\<rparr>)
                 (to_result (1, acme)) example_customers))
     = [LookupFields, HttpsGet ''https://api.companieshouse.gov.uk/company/01234567'',
        RecordLoad 1,
        SetText ''custentity_sic_codes'' (OneText []),
        SetText ''custentity_sic_codes'' (TextArray [[]]),
        SearchRun [],
        RecordSave 1]"
  by (simp add: map_stage_def registry_env_def to_result_def acme_def
      example_customers_def getCompaniesHouseApiResponse_def searchableCompanyId_def
      matches_digits_def matches_spaces_def is_digit_def is_space_def
      getSicCodesFromCompaniesHouseResponse_def getCompanyStatusFromCompaniesHouseResponse_def
      usableCode_def codes_step_def status_step_def updateClientSicCodes_def
      setText_sic_codes_def accepted_def selection_def getSicDescriptions_def
      length_property_def Let_def)

end
